(* ===== verification/Prelude.thy ===== *)
theory Prelude
  imports Main "HOL-Library.Sublist"
begin

text \<open>
  Shared vocabulary of the development: the types that name the model's state (the
  working directory as a map from file names to contents), the characters the source
  writes as Python escapes, the collection \<open>py_simps\<close> of evaluation facts about the
  Python built-ins, and generic lemmas on lists and options that the component
  theories share.
\<close>

named_theorems py_simps "evaluation facts of the modelled Python built-ins"

type_synonym pystr = string
  \<comment> \<open>a Python \<open>str\<close>; one \<open>char\<close> per code point, code points below 256 only\<close>

type_synonym fs = "pystr \<Rightarrow> pystr option"
  \<comment> \<open>the working directory: file name to file content, \<open>None\<close> for a missing file\<close>

abbreviation nl :: char where "nl \<equiv> CHR 0x0A"
  \<comment> \<open>Python \<open>'\n'\<close>\<close>
abbreviation cr :: char where "cr \<equiv> CHR 0x0D"
  \<comment> \<open>Python \<open>'\r'\<close>\<close>
abbreviation sq :: char where "sq \<equiv> CHR 0x27"
  \<comment> \<open>the single quote \<open>'\<close>\<close>
abbreviation bsl :: char where "bsl \<equiv> CHR 0x5C"
  \<comment> \<open>the backslash\<close>
abbreviation dq :: char where "dq \<equiv> CHR 0x22"
  \<comment> \<open>the double quote\<close>

subsection \<open>Lists and options\<close>

lemma map_filter_append [simp]:
  "List.map_filter f (xs @ ys) = List.map_filter f xs @ List.map_filter f ys"
  by (induction xs) (auto split: option.splits)

lemma map_filter_length_le: "length (List.map_filter f xs) \<le> length xs"
  by (induction xs) (auto split: option.splits)

lemma set_map_filter_iff:
  "y \<in> set (List.map_filter f xs) \<longleftrightarrow> (\<exists>x \<in> set xs. f x = Some y)"
  by (induction xs) (auto split: option.splits)

lemma map_filter_replicate:
  "f x = Some y \<Longrightarrow> List.map_filter f (replicate k x) = replicate k y"
  by (induction k) auto

end
