(* ===== verification/Py_Builtins.thy ===== *)
theory Py_Builtins
  imports Prelude
begin

text \<open>
  The Python built-ins that \<open>src/process_companies.py\<close> calls, each at the place it is
  called: \<open>str.strip\<close> (line 54), \<open>str.replace\<close> (line 58), \<open>str.endswith\<close> and the
  slice \<open>line[:-1]\<close> (lines 73--74), list slicing \<open>lines[a:b]\<close> (line 42),
  \<open>str.join\<close> (lines 49 and 91), \<open>str\<close> of the part number inside the f-string of
  line 87, and \<open>f.readlines()\<close> on a file opened in text mode (line 8). Each is written
  after CPython's documented behaviour, executable, with the lemmas the components use.
\<close>

section \<open>Whitespace and \<open>str.strip\<close>\<close>

text \<open>
  \<open>str.isspace\<close> restricted to the code points a \<open>char\<close> can hold (below 256): the
  ASCII controls 9--13 and 28--31, the space, NEL (133) and NO-BREAK SPACE (160).
\<close>

definition py_isspace :: "char \<Rightarrow> bool" where
  "py_isspace c =
     (let k = (of_char c :: nat)
      in (9 \<le> k \<and> k \<le> 13) \<or> (28 \<le> k \<and> k \<le> 31) \<or> k = 32 \<or> k = 133 \<or> k = 160)"

definition py_strip :: "pystr \<Rightarrow> pystr" where
  "py_strip s = rev (dropWhile py_isspace (rev (dropWhile py_isspace s)))"

section \<open>\<open>str.replace\<close>\<close>

text \<open>
  \<open>s.replace(old, new)\<close> scans left to right and replaces non-overlapping occurrences;
  with an empty \<open>old\<close> it inserts \<open>new\<close> before every character and at the end.
\<close>

function py_replace :: "pystr \<Rightarrow> pystr \<Rightarrow> pystr \<Rightarrow> pystr" where
  "py_replace old new [] = (if old = [] then new else [])"
| "py_replace old new (c # cs) =
     (if old = [] then new @ c # py_replace old new cs
      else if take (length old) (c # cs) = old
        then new @ py_replace old new (drop (length old) (c # cs))
      else c # py_replace old new cs)"
  by pat_completeness auto
termination
  by (relation "measure (\<lambda>(old, new, s). length s)") auto

section \<open>\<open>str.endswith\<close>, \<open>str.join\<close>\<close>

definition py_endswith :: "pystr \<Rightarrow> pystr \<Rightarrow> bool" where
  "py_endswith s suf = (length suf \<le> length s \<and> drop (length s - length suf) s = suf)"

fun py_join :: "pystr \<Rightarrow> pystr list \<Rightarrow> pystr" where
  "py_join sep [] = []"
| "py_join sep [x] = x"
| "py_join sep (x # y # zs) = x @ sep @ py_join sep (y # zs)"

section \<open>Slicing with step 1\<close>

text \<open>
  \<open>xs[a:b]\<close>: a negative bound counts from the end, then both bounds are clamped to
  \<open>[0, len xs]\<close>; the slice holds the elements at indices \<open>lo \<le> i < hi\<close>.
\<close>

definition py_slice_index :: "int \<Rightarrow> int \<Rightarrow> int" where
  "py_slice_index n i = (if i < 0 then max 0 (i + n) else min i n)"

definition py_slice :: "'a list \<Rightarrow> int \<Rightarrow> int \<Rightarrow> 'a list" where
  "py_slice xs a b =
     (let n = int (length xs); lo = py_slice_index n a; hi = py_slice_index n b
      in take (nat (hi - lo)) (drop (nat lo) xs))"

section \<open>\<open>str\<close> of a non-negative int\<close>

fun str_of_nat :: "nat \<Rightarrow> pystr" where
  "str_of_nat n =
     (if n < 10 then [char_of (48 + n)]
      else str_of_nat (n div 10) @ [char_of (48 + n mod 10)])"

declare str_of_nat.simps [simp del]

text \<open>A proof device, not code of the program: \<open>int(s)\<close> on a string of decimal digits,
  the inverse of \<open>str_of_nat\<close>, by which distinct part numbers give distinct file names.\<close>

definition read_nat :: "pystr \<Rightarrow> nat" where
  "read_nat s = foldl (\<lambda>acc c. 10 * acc + (of_char c - 48)) 0 s"

section \<open>\<open>readlines\<close> in text mode\<close>

text \<open>
  \<open>open(path, 'r')\<close> uses universal newlines: \<open>\r\n\<close> and a lone \<open>\r\<close> are read as
  \<open>\n\<close>. \<open>readlines()\<close> then splits after every \<open>\n\<close>, keeping it; a last line without
  one is kept as it is. The accumulator \<open>cur\<close> is the line read so far.
\<close>

fun univ_newlines :: "pystr \<Rightarrow> pystr" where
  "univ_newlines [] = []"
| "univ_newlines [c] = [if c = cr then nl else c]"
| "univ_newlines (c # d # cs) =
     (if c = cr \<and> d = nl then nl # univ_newlines cs
      else if c = cr then nl # univ_newlines (d # cs)
      else c # univ_newlines (d # cs))"

fun lines_acc :: "pystr \<Rightarrow> pystr \<Rightarrow> pystr list" where
  "lines_acc cur [] = (if cur = [] then [] else [cur])"
| "lines_acc cur (c # cs) =
     (if c = nl then (cur @ [nl]) # lines_acc [] cs else lines_acc (cur @ [c]) cs)"

definition py_readlines :: "pystr \<Rightarrow> pystr list" where
  "py_readlines s = lines_acc [] (univ_newlines s)"

section \<open>Lemmas\<close>

lemma read_nat_snoc [py_simps]: "read_nat (xs @ [c]) = 10 * read_nat xs + (of_char c - 48)"
  by (simp add: read_nat_def)

lemma of_char_digit: "d < 10 \<Longrightarrow> of_char (char_of (48 + d) :: char) = (48 + d :: nat)"
  by (simp add: of_char_of)

lemma read_str_of_nat: "read_nat (str_of_nat n) = n"
proof (induction n rule: str_of_nat.induct)
  case (1 n)
  show ?case
  proof (cases "n < 10")
    case True
    then show ?thesis by (simp add: str_of_nat.simps read_nat_def of_char_digit)
  next
    case False
    then have "read_nat (str_of_nat n) = 10 * read_nat (str_of_nat (n div 10)) + n mod 10"
      by (simp add: str_of_nat.simps [of n] read_nat_snoc of_char_digit)
    with False "1.IH" show ?thesis by simp
  qed
qed

lemma str_of_nat_inj: "str_of_nat a = str_of_nat b \<longleftrightarrow> a = b"
  by (metis read_str_of_nat)

lemma str_of_nat_digit [py_simps]: "n < 10 \<Longrightarrow> str_of_nat n = [char_of (48 + n)]"
  by (simp add: str_of_nat.simps)

lemma char_of_digit_simps [py_simps]:
  "char_of (48::nat) = CHR ''0''"
  "char_of (49::nat) = CHR ''1''"
  "char_of (50::nat) = CHR ''2''"
  "char_of (51::nat) = CHR ''3''"
  "char_of (52::nat) = CHR ''4''"
  "char_of (53::nat) = CHR ''5''"
  "char_of (54::nat) = CHR ''6''"
  "char_of (55::nat) = CHR ''7''"
  "char_of (56::nat) = CHR ''8''"
  "char_of (57::nat) = CHR ''9''"
  by code_simp+

lemma str_of_nat_nonempty: "str_of_nat n \<noteq> []"
  by (subst str_of_nat.simps) simp

text \<open>Line 42 with non-negative bounds: \<open>lines[a:b]\<close> is the lines from index \<open>a\<close>
  up to, not including, index \<open>b\<close>; it is empty when \<open>a \<ge> b\<close> and stops silently at
  the end of the list.\<close>

lemma py_slice_nonneg:
  assumes "0 \<le> a" "0 \<le> b"
  shows "py_slice xs a b = take (nat b - nat a) (drop (nat a) xs)"
proof -
  have "take (nat (min b (int (length xs)) - min a (int (length xs)))) (drop (nat (min a (int (length xs)))) xs)
        = take (nat b - nat a) (drop (nat a) xs)"
    using assms by (cases "a \<le> int (length xs)"; cases "b \<le> int (length xs)")
      (auto simp: min_def nat_diff_distrib' nat_le_iff)
  with assms show ?thesis by (simp add: py_slice_def py_slice_index_def Let_def)
qed

lemma py_slice_butlast [py_simps]: "py_slice xs 0 (-1) = butlast xs"
  unfolding py_slice_def py_slice_index_def Let_def butlast_conv_take
  by (cases xs) (simp_all add: nat_diff_distrib')

lemma py_replace_no_occurrence:
  "old \<noteq> [] \<Longrightarrow> \<not> sublist old s \<Longrightarrow> py_replace old new s = s"
proof (induction old new s rule: py_replace.induct)
  case (1 old new)
  then show ?case by simp
next
  case (2 old new c cs)
  have np: "take (length old) (c # cs) \<noteq> old"
    using "2.prems"(2) by (metis prefix_imp_sublist take_is_prefix)
  have "\<not> sublist old cs"
    using "2.prems"(2) by (meson sublist_Cons_right)
  with np "2.IH"(3) "2.prems"(1) show ?case by simp
qed

lemma dropWhile_all: "(\<forall>x \<in> set (dropWhile P s). P x) \<longleftrightarrow> (\<forall>x \<in> set s. P x)"
  by (induction s) auto

lemma py_strip_empty_iff: "py_strip s = [] \<longleftrightarrow> (\<forall>c \<in> set s. py_isspace c)"
  by (simp add: py_strip_def dropWhile_eq_Nil_conv dropWhile_all)

lemma univ_newlines_id: "cr \<notin> set s \<Longrightarrow> univ_newlines s = s"
  by (induction s rule: univ_newlines.induct) auto

lemma lines_acc_line:
  "nl \<notin> set l \<Longrightarrow> lines_acc cur (l @ nl # rest) = (cur @ l @ [nl]) # lines_acc [] rest"
  by (induction l arbitrary: cur) auto

lemma py_readlines_replicate:
  assumes "nl \<notin> set l" "cr \<notin> set l"
  shows "py_readlines (concat (replicate k (l @ [nl]))) = replicate k (l @ [nl])"
proof -
  have "lines_acc [] (concat (replicate k (l @ [nl]))) = replicate k (l @ [nl])"
    using assms(1) by (induction k) (simp_all add: lines_acc_line)
  moreover have "cr \<notin> set (concat (replicate k (l @ [nl])))"
    using assms(2) by (cases k) auto
  ultimately show ?thesis by (simp add: py_readlines_def univ_newlines_id)
qed

subsection \<open>Character sets of the results\<close>

lemma py_join_eq:
  "rows \<noteq> [] \<Longrightarrow> py_join sep rows = concat (map (\<lambda>r. r @ sep) (butlast rows)) @ last rows"
  by (induction sep rows rule: py_join.induct) auto

lemma lines_acc_terminated:
  "c \<noteq> nl \<Longrightarrow> \<forall>r \<in> set xs. nl \<notin> set r \<Longrightarrow>
   lines_acc [] (concat (map (\<lambda>r. r @ [c, nl]) xs) @ rest) = map (\<lambda>r. r @ [c, nl]) xs @ lines_acc [] rest"
proof (induction xs)
  case Nil
  then show ?case by simp
next
  case (Cons x xs)
  then have "nl \<notin> set (x @ [c])" by simp
  from lines_acc_line [OF this, of "[]"] Cons show ?case by simp
qed

lemma set_py_replace: "x \<in> set (py_replace old new s) \<Longrightarrow> x \<in> set s \<or> x \<in> set new"
proof (induction old new s rule: py_replace.induct)
  case (1 old new)
  then show ?case by (simp split: if_splits)
next
  case (2 old new c cs)
  show ?case
  proof (cases "old = []")
    case True
    with 2 show ?thesis by auto
  next
    case old: False
    show ?thesis
    proof (cases "take (length old) (c # cs) = old")
      case True
      with old "2.prems" "2.IH"(2)
      have "x \<in> set (drop (length old) (c # cs)) \<or> x \<in> set new" by (simp, blast)
      then show ?thesis by (metis in_set_dropD)
    next
      case False
      with old "2.prems" "2.IH"(3) show ?thesis by auto
    qed
  qed
qed

lemma py_strip_snoc_space: "py_isspace c \<Longrightarrow> py_strip (s @ [c]) = py_strip s"
proof (cases "\<forall>x \<in> set s. py_isspace x")
  case True
  then have "dropWhile py_isspace s = []" by simp
  with True show "py_isspace c \<Longrightarrow> ?thesis" by (simp add: py_strip_def dropWhile_append dropWhile_all)
next
  case False
  then show "py_isspace c \<Longrightarrow> ?thesis" by (auto simp: py_strip_def dropWhile_append)
qed

lemma set_py_strip: "x \<in> set (py_strip s) \<Longrightarrow> x \<in> set s"
  by (auto simp: py_strip_def dest!: set_dropWhileD)

end
