(* ===== verification/Row_Transform.thy ===== *)
theory Row_Transform
  imports Py_Builtins
begin

text \<open>
  The body of the \<open>for\<close> loop of \<open>process_table\<close> (\<open>src/process_companies.py\<close>,
  lines 52--76) up to \<open>current_batch.append(line)\<close>: one raw line of the dump becomes one
  row, or nothing when it is blank. The steps, in the order of the code: \<open>strip\<close>, the
  blank-line \<open>continue\<close>, the quote rewrite of line 58, the boolean rewrite of lines
  61--70 (the same regular expression for both tables), and the removal of one trailing
  \<open>,\<close> or \<open>;\<close>.
\<close>

section \<open>The boolean field rewrite \<open>re.sub(r"', (0|1), '", ...)\<close>\<close>

text \<open>
  The pattern is seven characters long and has no repetition, so a match at a position
  is a test of the next seven characters; the result is the captured digit.
\<close>

fun match_bool_field :: "pystr \<Rightarrow> char option" where
  "match_bool_field (q1 # c1 # s1 # d # c2 # s2 # q2 # _) =
     (if q1 = sq \<and> c1 = CHR '','' \<and> s1 = CHR '' '' \<and> (d = CHR ''0'' \<or> d = CHR ''1'')
         \<and> c2 = CHR '','' \<and> s2 = CHR '' '' \<and> q2 = sq
      then Some d else None)"
| "match_bool_field _ = None"

text \<open>The replacement lambda: \<open>f"', {'true' if m.group(1)=='1' else 'false'}, '"\<close>.\<close>

definition bool_field :: "char \<Rightarrow> pystr" where
  "bool_field d = [sq] @ '', '' @ (if d = CHR ''1'' then ''true'' else ''false'') @ '', '' @ [sq]"

text \<open>
  \<open>re.sub\<close> scans left to right; after a match it resumes behind the seven matched
  characters (non-overlapping matches), otherwise it copies one character and moves on.
\<close>

fun sub_bool_fields :: "pystr \<Rightarrow> pystr" where
  "sub_bool_fields [] = []"
| "sub_bool_fields (c # cs) =
     (case match_bool_field (c # cs) of
        Some d \<Rightarrow> bool_field d @ sub_bool_fields (drop 6 cs)
      | None \<Rightarrow> c # sub_bool_fields cs)"

section \<open>The steps of the loop body\<close>

text \<open>Line 58: \<open>line.replace("\\'", "''")\<close>, backslash-quote to two quotes.\<close>

definition unescape_quotes :: "pystr \<Rightarrow> pystr" where
  "unescape_quotes line = py_replace [bsl, sq] [sq, sq] line"

text \<open>Lines 61--70: two independent \<open>if\<close>s on the table name, each applying the rewrite.\<close>

definition normalize_bools :: "pystr \<Rightarrow> pystr \<Rightarrow> pystr" where
  "normalize_bools table_name line =
     (let line = (if table_name = ''Companies'' then sub_bool_fields line else line)
      in if table_name = ''Questions'' then sub_bool_fields line else line)"

text \<open>Lines 73--74: \<open>if line.endswith(',') or line.endswith(';'): line = line[:-1]\<close>.\<close>

definition strip_terminator :: "pystr \<Rightarrow> pystr" where
  "strip_terminator line =
     (if py_endswith line '','' \<or> py_endswith line '';'' then py_slice line 0 (-1) else line)"

text \<open>Lines 54--74: the whole body; \<open>None\<close> is the \<open>continue\<close> of line 55.\<close>

definition transform_row :: "pystr \<Rightarrow> pystr \<Rightarrow> pystr option" where
  "transform_row table_name raw =
     (let line = py_strip raw
      in if line = [] then None
         else Some (strip_terminator (normalize_bools table_name (unescape_quotes line))))"

section \<open>Lemmas\<close>

text \<open>The definitions a concrete row is evaluated with.\<close>

lemmas row_eval_simps = transform_row_def py_strip_def py_isspace_def unescape_quotes_def
  normalize_bools_def strip_terminator_def bool_field_def py_endswith_def

lemma py_endswith_single: "py_endswith s [c] \<longleftrightarrow> s \<noteq> [] \<and> last s = c"
  by (cases s rule: rev_cases) (auto simp: py_endswith_def)

subsection \<open>The matcher and the scan\<close>

fun_cases match_bool_field_SomeE: "match_bool_field s = Some d"

text \<open>A match is exactly the seven characters \<open>', 0, '\<close> or \<open>', 1, '\<close> at the front.\<close>

lemma match_bool_field_Some_iff:
  "match_bool_field s = Some d \<longleftrightarrow>
     (d = CHR ''0'' \<or> d = CHR ''1'') \<and> take 7 s = [sq] @ '', '' @ [d] @ '', '' @ [sq]"
proof
  assume "match_bool_field s = Some d"
  then show "(d = CHR ''0'' \<or> d = CHR ''1'') \<and> take 7 s = [sq] @ '', '' @ [d] @ '', '' @ [sq]"
    by (rule match_bool_field_SomeE) (auto split: if_splits)
next
  assume "(d = CHR ''0'' \<or> d = CHR ''1'') \<and> take 7 s = [sq] @ '', '' @ [d] @ '', '' @ [sq]"
  then obtain r where "s = [sq] @ '', '' @ [d] @ '', '' @ [sq] @ r" and "d = CHR ''0'' \<or> d = CHR ''1''"
    by (metis append_Cons append_Nil append_take_drop_id)
  then show "match_bool_field s = Some d" by auto
qed




subsection \<open>The replace scan\<close>

lemma unescape_quotes_Cons:
  "unescape_quotes (c # cs) =
     (if take 2 (c # cs) = [bsl, sq] then sq # sq # unescape_quotes (drop 1 cs) else c # unescape_quotes cs)"
  by (simp add: unescape_quotes_def)

lemma unescape_quotes_hd:
  "c # r = unescape_quotes s \<Longrightarrow> s \<noteq> [] \<and> (hd s = c \<or> take 2 s = [bsl, sq])"
  by (cases s) (auto simp: unescape_quotes_def split: if_splits)

subsection \<open>Blank lines\<close>

text \<open>C6. A raw line is skipped (no row) exactly when every character of it is whitespace.\<close>

theorem transform_row_None_iff:
  "transform_row tn raw = None \<longleftrightarrow> (\<forall>c \<in> set raw. py_isspace c)"
  by (simp add: transform_row_def Let_def py_strip_empty_iff)

theorem transform_row_None_iff_witness:
  "transform_row ''Companies'' (''  '' @ [nl]) = None"
  using transform_row_None_iff [of "''Companies''" "''  '' @ [nl]"] by (simp add: py_isspace_def)

subsection \<open>The terminator\<close>

text \<open>C7. A row ending in \<open>,\<close> or \<open>;\<close> loses exactly that last character; any other
  row is unchanged.\<close>

theorem strip_terminator_eq:
  "strip_terminator line =
     (if line \<noteq> [] \<and> (last line = CHR '','' \<or> last line = CHR '';'') then butlast line else line)"
  by (auto simp: strip_terminator_def py_endswith_single py_simps)

subsection \<open>The quote rewrite\<close>

text \<open>C8. The quote rewrite leaves no escaped quote behind: when the row has no escaped
  backslash \<open>\\\<close>, its result contains no backslash followed by a quote. (With an
  escaped backslash the precondition is needed: \<open>\\'\<close> becomes \<open>\''\<close>.)\<close>

theorem unescape_quotes_complete:
  "\<not> sublist [bsl, bsl] s \<Longrightarrow> \<not> sublist [bsl, sq] (unescape_quotes s)"
proof (induction s rule: length_induct)
  case (1 s)
  show ?case
  proof (cases s)
    case Nil
    then show ?thesis by (simp add: unescape_quotes_def)
  next
    case (Cons c cs)
    have sub: "\<not> sublist [bsl, bsl] cs" using "1.prems" Cons by (auto simp: sublist_Cons_right)
    show ?thesis
    proof (cases "take 2 s = [bsl, sq]")
      case True
      have "\<not> sublist [bsl, bsl] (drop 1 cs)" using sub by (cases cs) (auto simp: sublist_Cons_right)
      then have "\<not> sublist [bsl, sq] (unescape_quotes (drop 1 cs))"
        using "1.IH" Cons by simp
      then show ?thesis using True Cons by (simp add: unescape_quotes_Cons sublist_Cons_right)
    next
      case False
      have ih: "\<not> sublist [bsl, sq] (unescape_quotes cs)" using "1.IH" Cons sub by simp
      have "\<not> prefix [bsl, sq] (c # unescape_quotes cs)"
      proof
        assume p: "prefix [bsl, sq] (c # unescape_quotes cs)"
        then obtain r where c: "c = bsl" and u: "sq # r = unescape_quotes cs"
          by (auto simp: prefix_def)
        from unescape_quotes_hd [OF u] have "cs \<noteq> []" "hd cs = sq \<or> take 2 cs = [bsl, sq]" by auto
        with False Cons c "1.prems" show False
          by (cases cs) (auto simp: sublist_Cons_right)
      qed
      moreover from False Cons have "\<not> take 2 (c # cs) = [bsl, sq]" by simp
      then have "unescape_quotes s = c # unescape_quotes cs"
        unfolding Cons unescape_quotes_Cons by (rule if_not_P)
      ultimately show ?thesis using ih by (simp add: sublist_Cons_right)
    qed
  qed
qed

theorem unescape_quotes_complete_witness:
  "unescape_quotes (''('it'' @ [bsl, sq] @ ''s')'') = ''('it'' @ [sq, sq] @ ''s')'' \<and>
   \<not> sublist [bsl, sq] (''('it'' @ [sq, sq] @ ''s')'')"
proof -
  have h: "\<not> sublist [bsl, bsl] (''('it'' @ [bsl, sq] @ ''s')'')" by (simp add: sublist_Cons_right)
  have e: "unescape_quotes (''('it'' @ [bsl, sq] @ ''s')'') = ''('it'' @ [sq, sq] @ ''s')''"
    by (simp add: unescape_quotes_def)
  show ?thesis using unescape_quotes_complete [OF h] e by simp
qed

text \<open>C9. A row without a backslash is left as it is, doubled quotes included: applying
  the rewrite again to such text changes nothing.\<close>

theorem unescape_quotes_no_backslash: "bsl \<notin> set s \<Longrightarrow> unescape_quotes s = s"
  unfolding unescape_quotes_def
  by (rule py_replace_no_occurrence) (auto simp: sublist_def)

theorem unescape_quotes_no_backslash_witness:
  "bsl \<notin> set (''('it'' @ [sq, sq] @ ''s')'') \<and>
   unescape_quotes (''('it'' @ [sq, sq] @ ''s')'') = ''('it'' @ [sq, sq] @ ''s')''"
  using unescape_quotes_no_backslash [of "''('it'' @ [sq, sq] @ ''s')''"] by simp

subsection \<open>The boolean rewrite\<close>

text \<open>C10. A row in which neither \<open>', 0, '\<close> nor \<open>', 1, '\<close> occurs is left unchanged by
  the boolean rewrite; in particular a flag after an unquoted value, as in
  \<open>(7, NULL, 1, '2024-01-01')\<close>, is not converted.\<close>

theorem sub_bool_fields_no_flag:
  "\<not> sublist ([sq] @ '', 0, '' @ [sq]) s \<Longrightarrow> \<not> sublist ([sq] @ '', 1, '' @ [sq]) s \<Longrightarrow>
   sub_bool_fields s = s"
proof (induction s rule: sub_bool_fields.induct)
  case 1
  then show ?case by simp
next
  case (2 c cs)
  have "match_bool_field (c # cs) = None"
  proof (cases "match_bool_field (c # cs)")
    case (Some d)
    then have "prefix ([sq] @ '', '' @ [d] @ '', '' @ [sq]) (c # cs)"
      and "d = CHR ''0'' \<or> d = CHR ''1''"
      unfolding match_bool_field_Some_iff by (metis prefixI append_take_drop_id)+
    with "2.prems" show ?thesis by (auto dest: prefix_imp_sublist)
  qed
  moreover have "sub_bool_fields cs = cs"
    using "2.IH"(1) [OF calculation] "2.prems" by (simp add: sublist_Cons_right)
  ultimately show ?case by simp
qed

theorem sub_bool_fields_no_flag_witness:
  "sub_bool_fields ''(7, NULL, 1, '2024-01-01')'' = ''(7, NULL, 1, '2024-01-01')''"
proof -
  have h0: "\<not> sublist ([sq] @ '', 0, '' @ [sq]) ''(7, NULL, 1, '2024-01-01')''"
    by (simp add: sublist_Cons_right)
  have h1: "\<not> sublist ([sq] @ '', 1, '' @ [sq]) ''(7, NULL, 1, '2024-01-01')''"
    by (simp add: sublist_Cons_right)
  show ?thesis by (rule sub_bool_fields_no_flag [OF h0 h1])
qed



subsection \<open>Characters of a row\<close>

lemma set_bool_field: "set (bool_field d) \<subseteq> set (bool_field (CHR ''0'')) \<union> set (bool_field (CHR ''1''))"
  by (simp add: bool_field_def)

lemma set_sub_bool_fields:
  "x \<in> set (sub_bool_fields s) \<Longrightarrow> x \<in> set s \<or> x \<in> set (bool_field (CHR ''0'')) \<or> x \<in> set (bool_field (CHR ''1''))"
proof (induction s rule: sub_bool_fields.induct)
  case 1
  then show ?case by simp
next
  case (2 c cs)
  show ?case
  proof (cases "match_bool_field (c # cs)")
    case None
    with 2 show ?thesis by auto
  next
    case (Some d)
    with "2.prems" have "x \<in> set (bool_field d) \<or> x \<in> set (sub_bool_fields (drop 6 cs))" by simp
    moreover have "x \<in> set (sub_bool_fields (drop 6 cs)) \<Longrightarrow> x \<in> set (drop 6 cs) \<or> x \<in> set (bool_field (CHR ''0'')) \<or> x \<in> set (bool_field (CHR ''1''))"
      by (rule "2.IH"(2) [OF Some])
    ultimately show ?thesis using set_bool_field [of d] by (auto dest: in_set_dropD)
  qed
qed

lemma set_strip_terminator: "x \<in> set (strip_terminator v) \<Longrightarrow> x \<in> set v"
  by (auto simp: strip_terminator_def py_simps split: if_splits dest: in_set_butlastD)

lemma set_normalize_bools:
  "x \<in> set (normalize_bools tn u) \<Longrightarrow>
   x \<in> set u \<or> x \<in> set (bool_field (CHR ''0'')) \<or> x \<in> set (bool_field (CHR ''1''))"
  by (auto simp: normalize_bools_def Let_def split: if_splits dest!: set_sub_bool_fields)

text \<open>C13. A row never contains a newline when its raw line has one at most at its end
  (as every line \<open>readlines\<close> returns), and no carriage return when its raw line has
  none: the rewrites only add quotes, commas, spaces and letters.\<close>

theorem transform_row_no_newline:
  assumes "nl \<notin> set (butlast raw)" and "transform_row tn raw = Some r"
  shows "nl \<notin> set r \<and> (cr \<notin> set raw \<longrightarrow> cr \<notin> set r)"
proof -
  let ?l = "py_strip raw"
  have l_nl: "nl \<notin> set ?l"
  proof (cases "raw = [] \<or> last raw \<noteq> nl")
    case True
    with assms(1) have "nl \<notin> set raw" by (cases raw rule: rev_cases) auto
    then show ?thesis by (auto dest: set_py_strip)
  next
    case False
    then obtain r1 where r1: "raw = r1 @ [nl]" by (cases raw rule: rev_cases) auto
    with assms(1) have "nl \<notin> set r1" by simp
    moreover have "?l = py_strip r1" using r1 by (simp add: py_strip_snoc_space py_isspace_def)
    ultimately show ?thesis by (auto dest: set_py_strip)
  qed
  from assms(2) have r: "r = strip_terminator (normalize_bools tn (unescape_quotes ?l))"
    by (auto simp: transform_row_def Let_def split: if_splits)
  have src: "x \<in> set ?l \<or> x = sq \<or> x \<in> set (bool_field (CHR ''0'')) \<or> x \<in> set (bool_field (CHR ''1''))"
    if "x \<in> set r" for x
    using that unfolding r unescape_quotes_def
    by (auto dest!: set_strip_terminator set_normalize_bools set_py_replace)
  have "nl \<notin> set r" using src l_nl by (fastforce simp: bool_field_def)
  moreover have "cr \<notin> set r" if "cr \<notin> set raw"
    using src that by (fastforce simp: bool_field_def dest: set_py_strip)
  ultimately show ?thesis by blast
qed

theorem transform_row_no_newline_witness:
  "nl \<notin> set ''('x', true, 'y')'' \<and> cr \<notin> set ''('x', true, 'y')''"
proof -
  have h1: "nl \<notin> set (butlast (''('x', 1, 'y'),'' @ [nl]))" by simp
  have h2: "transform_row ''Companies'' (''('x', 1, 'y'),'' @ [nl]) = Some ''('x', true, 'y')''"
    by (simp add: row_eval_simps py_simps)
  show ?thesis using transform_row_no_newline [OF h1 h2] by simp
qed

end
