(* ===== verification/Batch_Writer.thy ===== *)
theory Batch_Writer
  imports Row_Transform
begin

text \<open>
  \<open>process_table\<close> and \<open>write_batch\<close> of \<open>src/process_companies.py\<close> (lines 28--92).
  The loop state of lines 45--46 (\<open>current_batch\<close>, \<open>part\<close>) and the working directory
  that \<open>write_batch\<close> writes into form the record \<open>batch_state\<close>; one iteration of the
  \<open>for\<close> loop is \<open>batch_step\<close>, the loop is \<open>batch_loop\<close>, and the final
  \<open>if current_batch:\<close> is \<open>flush_batch\<close>. The abstract specification is \<open>chunks\<close>:
  the transformed rows cut into consecutive pieces of the batch size, written by
  \<open>write_batches\<close> to parts \<open>1, 2, \<dots>\<close>.
\<close>

section \<open>Data\<close>

text \<open>The arguments of \<open>process_table\<close> that \<open>process_file\<close> fixes per table.\<close>

record table_spec =
  start_line :: int
  end_line :: int
  table_name :: pystr
  table_quoted :: pystr
  columns :: "pystr list"
  output_prefix :: pystr

record batch_state =
  current_batch :: "pystr list"
  part :: nat
  files :: fs

section \<open>Writing one batch\<close>

text \<open>Line 87: \<open>f'{prefix}_part{part}.sql'\<close>.\<close>

definition batch_filename :: "pystr \<Rightarrow> nat \<Rightarrow> pystr" where
  "batch_filename pfx n = pfx @ ''_part'' @ str_of_nat n @ ''.sql''"

text \<open>Lines 89--92: the header, the rows joined by \<open>",\n"\<close>, then \<open>";\n"\<close>.\<close>

definition batch_content :: "pystr \<Rightarrow> pystr list \<Rightarrow> pystr" where
  "batch_content header rows = header @ py_join [CHR '','', nl] rows @ [CHR '';'', nl]"

text \<open>Lines 86--92: mode \<open>'w'\<close> creates or truncates the file, so the write replaces it.\<close>

definition write_batch :: "pystr \<Rightarrow> nat \<Rightarrow> pystr \<Rightarrow> pystr list \<Rightarrow> fs \<Rightarrow> fs" where
  "write_batch pfx n header rows dir =
     dir(batch_filename pfx n \<mapsto> batch_content header rows)"

section \<open>The loop of \<open>process_table\<close>\<close>

text \<open>Lines 49--50: \<open>f'INSERT INTO {table_quoted} ({cols_str}) VALUES\n'\<close>.\<close>

definition insert_header :: "pystr \<Rightarrow> pystr list \<Rightarrow> pystr" where
  "insert_header tq cols = ''INSERT INTO '' @ tq @ '' ('' @ py_join '', '' cols @ '') VALUES'' @ [nl]"

text \<open>Lines 52--81: one iteration; the row is appended, and a full batch is written,
  emptied and the part counter advanced.\<close>

definition batch_step ::
  "nat \<Rightarrow> pystr \<Rightarrow> pystr \<Rightarrow> pystr \<Rightarrow> pystr \<Rightarrow> batch_state \<Rightarrow> batch_state" where
  "batch_step batch_size tn pfx header raw st =
     (case transform_row tn raw of
        None \<Rightarrow> st
      | Some row \<Rightarrow>
          (let b = current_batch st @ [row]
           in if batch_size \<le> length b
              then st\<lparr>current_batch := [], part := part st + 1,
                      files := write_batch pfx (part st) header b (files st)\<rparr>
              else st\<lparr>current_batch := b\<rparr>))"

fun batch_loop ::
  "nat \<Rightarrow> pystr \<Rightarrow> pystr \<Rightarrow> pystr \<Rightarrow> pystr list \<Rightarrow> batch_state \<Rightarrow> batch_state" where
  "batch_loop batch_size tn pfx header [] st = st"
| "batch_loop batch_size tn pfx header (raw # raws) st =
     batch_loop batch_size tn pfx header raws (batch_step batch_size tn pfx header raw st)"

text \<open>Lines 83--84: the last, partial batch.\<close>

definition flush_batch :: "pystr \<Rightarrow> pystr \<Rightarrow> batch_state \<Rightarrow> fs" where
  "flush_batch pfx header st =
     (if current_batch st \<noteq> [] then write_batch pfx (part st) header (current_batch st) (files st)
      else files st)"

text \<open>Lines 44--84 for a given batch size, from the initial state of lines 45--46.\<close>

definition run_batches :: "nat \<Rightarrow> pystr \<Rightarrow> pystr \<Rightarrow> pystr \<Rightarrow> pystr list \<Rightarrow> fs \<Rightarrow> fs" where
  "run_batches batch_size tn pfx header data dir =
     flush_batch pfx header
       (batch_loop batch_size tn pfx header data \<lparr>current_batch = [], part = 1, files = dir\<rparr>)"

text \<open>Lines 28--84: slice out the data lines (line 42), build the header, batch by 50.\<close>

definition process_table :: "pystr list \<Rightarrow> table_spec \<Rightarrow> fs \<Rightarrow> fs" where
  "process_table lines ts dir =
     (let insert_line_idx = start_line ts - 1;
          data_lines = py_slice lines (insert_line_idx + 1) (end_line ts)
      in run_batches 50 (table_name ts) (output_prefix ts)
           (insert_header (table_quoted ts) (columns ts)) data_lines dir)"

section \<open>Abstract specification\<close>

text \<open>
  The rows cut into consecutive pieces of \<open>n\<close> rows, the last one shorter. A size
  below 1 acts as 1, as the code's test \<open>len(current_batch) >= batch_size\<close> does.
\<close>

function chunks :: "nat \<Rightarrow> 'a list \<Rightarrow> 'a list list" where
  "chunks n xs = (if xs = [] then [] else take (max 1 n) xs # chunks n (drop (max 1 n) xs))"
  by pat_completeness auto
termination
  by (relation "measure (\<lambda>(n, xs). length xs)") auto

declare chunks.simps [simp del]

fun write_batches :: "pystr \<Rightarrow> pystr \<Rightarrow> nat \<Rightarrow> pystr list list \<Rightarrow> fs \<Rightarrow> fs" where
  "write_batches pfx header k [] dir = dir"
| "write_batches pfx header k (b # bs) dir =
     write_batches pfx header (Suc k) bs (write_batch pfx k header b dir)"

text \<open>The loop invariant: the open batch is never full, the part counter is positive.\<close>

definition batch_inv :: "nat \<Rightarrow> batch_state \<Rightarrow> bool" where
  "batch_inv n st \<longleftrightarrow> length (current_batch st) < max 1 n \<and> 1 \<le> part st"

section \<open>Lemmas on chunks\<close>

lemma chunks_Nil [simp]: "chunks n [] = []"
  by (simp add: chunks.simps)

lemma chunks_not_Nil:
  "xs \<noteq> [] \<Longrightarrow> chunks n xs = take (max 1 n) xs # chunks n (drop (max 1 n) xs)"
  by (simp add: chunks.simps [of n xs])

lemma chunks_append_full:
  "length ys = max 1 n \<Longrightarrow> chunks n (ys @ zs) = ys # chunks n zs"
  by (subst chunks_not_Nil) auto

lemma concat_chunks: "concat (chunks n xs) = xs"
proof (induction n xs rule: chunks.induct)
  case (1 n xs)
  then show ?case by (cases "xs = []") (simp_all add: chunks_not_Nil)
qed

lemma chunks_bounds:
  "c \<in> set (chunks n xs) \<Longrightarrow> c \<noteq> [] \<and> length c \<le> max 1 n"
proof (induction n xs rule: chunks.induct)
  case (1 n xs)
  then show ?case by (cases "xs = []") (auto simp: chunks_not_Nil)
qed

lemma chunks_full_but_last:
  "c \<in> set (butlast (chunks n xs)) \<Longrightarrow> length c = max 1 n"
proof (induction n xs rule: chunks.induct)
  case (1 n xs)
  show ?case
  proof (cases "xs = []")
    case True
    with "1.prems" show ?thesis by simp
  next
    case False
    show ?thesis
    proof (cases "drop (max 1 n) xs = []")
      case True
      with False "1.prems" show ?thesis by (simp add: chunks_not_Nil)
    next
      case dne: False
      then have "max 1 n < length xs" by (simp only: drop_eq_Nil not_le)
      moreover have "chunks n (drop (max 1 n) xs) \<noteq> []"
        using dne by (simp add: chunks_not_Nil)
      ultimately show ?thesis
        using False "1.prems" "1.IH" by (auto simp: chunks_not_Nil [of xs] min_def)
    qed
  qed
qed

lemma div_add_self_Suc: "m \<noteq> 0 \<Longrightarrow> (k + m) div m = Suc (k div m)" for k m :: nat
  using div_add_self2 [of m k] by simp

lemma length_chunks: "length (chunks n xs) = (length xs + (max 1 n - 1)) div max 1 n"
proof (induction n xs rule: chunks.induct)
  case (1 n xs)
  show ?case
  proof (cases "xs = []")
    case True
    then show ?thesis by simp
  next
    case False
    let ?m = "max 1 n"
    have m: "0 < ?m" by simp
    from False "1.IH" have "length (chunks n xs) = Suc ((length xs - ?m + (?m - 1)) div ?m)"
      by (simp add: chunks_not_Nil [of xs])
    also have "\<dots> = (length xs + (?m - 1)) div ?m"
    proof (cases "length xs \<le> ?m")
      case True
      have e: "length xs + (?m - 1) = (length xs - 1) + 1 * ?m"
        using \<open>xs \<noteq> []\<close> m by (cases xs) auto
      have "(length xs - 1) div ?m = 0"
        using True \<open>xs \<noteq> []\<close> by simp
      with True m show ?thesis by (simp only: e div_mult_self1) simp
    next
      case False
      then have e: "length xs + (?m - 1) = (length xs - ?m + (?m - 1)) + ?m" by simp
      have "(length xs + (?m - 1)) div ?m = ((length xs - ?m + (?m - 1)) + ?m) div ?m"
        by (subst e) (rule refl)
      also have "\<dots> = Suc ((length xs - ?m + (?m - 1)) div ?m)"
        by (rule div_add_self_Suc) simp
      finally show ?thesis by (rule sym)
    qed
    finally show ?thesis .
  qed
qed

lemma nth_chunks:
  "i < length (chunks n xs) \<Longrightarrow> chunks n xs ! i = take (max 1 n) (drop (i * max 1 n) xs)"
proof (induction n xs arbitrary: i rule: chunks.induct)
  case (1 n xs)
  show ?case
  proof (cases "xs = []")
    case True
    with "1.prems" show ?thesis by simp
  next
    case False
    show ?thesis
    proof (cases i)
      case 0
      with False show ?thesis by (simp add: chunks_not_Nil)
    next
      case (Suc j)
      with False "1.prems" have "j < length (chunks n (drop (max 1 n) xs))"
        by (simp add: chunks_not_Nil)
      with False "1.IH" [of j] Suc show ?thesis
        by (simp add: chunks_not_Nil add.commute)
    qed
  qed
qed

section \<open>The loop: steps, invariant, refinement\<close>

lemma chunks_short: "xs \<noteq> [] \<Longrightarrow> length xs \<le> max 1 n \<Longrightarrow> chunks n xs = [xs]"
  by (simp add: chunks_not_Nil)

lemma batch_step_skip:
  "transform_row tn raw = None \<Longrightarrow> batch_step n tn pfx header raw st = st"
  by (simp add: batch_step_def)

lemma batch_step_full:
  "transform_row tn raw = Some r \<Longrightarrow> n \<le> Suc (length (current_batch st)) \<Longrightarrow>
   batch_step n tn pfx header raw st =
     st\<lparr>current_batch := [], part := Suc (part st),
        files := write_batch pfx (part st) header (current_batch st @ [r]) (files st)\<rparr>"
  by (simp add: batch_step_def)

lemma batch_step_append:
  "transform_row tn raw = Some r \<Longrightarrow> \<not> n \<le> Suc (length (current_batch st)) \<Longrightarrow>
   batch_step n tn pfx header raw st = st\<lparr>current_batch := current_batch st @ [r]\<rparr>"
  by (simp add: batch_step_def)

lemmas batch_step_cases = batch_step_skip batch_step_full batch_step_append

lemma batch_step_inv:
  "batch_inv n st \<Longrightarrow> batch_inv n (batch_step n tn pfx header raw st)"
  by (cases "transform_row tn raw"; cases "n \<le> Suc (length (current_batch st))")
     (auto simp: batch_inv_def batch_step_cases)

text \<open>C4. Every run of the loop keeps the invariant: the open batch holds fewer rows
  than the batch size (at least one row once a size below 1 acts as 1) and the part
  counter stays positive.\<close>

theorem batch_loop_inv:
  "batch_inv n st \<Longrightarrow> batch_inv n (batch_loop n tn pfx header raws st)"
  by (induction raws arbitrary: st) (auto intro: batch_step_inv)

lemma batch_loop_refines:
  "length (current_batch st) < max 1 n \<Longrightarrow>
   flush_batch pfx header (batch_loop n tn pfx header raws st) =
   write_batches pfx header (part st)
     (chunks n (current_batch st @ List.map_filter (transform_row tn) raws)) (files st)"
proof (induction raws arbitrary: st)
  case Nil
  then show ?case
    by (cases "current_batch st = []") (auto simp: flush_batch_def chunks_short)
next
  case (Cons raw raws)
  show ?case
  proof (cases "transform_row tn raw")
    case None
    with Cons show ?thesis by (simp add: batch_step_skip)
  next
    case (Some r)
    let ?b = "current_batch st @ [r]"
    show ?thesis
    proof (cases "n \<le> Suc (length (current_batch st))")
      case True
      with Cons.prems have "length ?b = max 1 n" by auto
      then have "chunks n (current_batch st @ List.map_filter (transform_row tn) (raw # raws))
                 = ?b # chunks n (List.map_filter (transform_row tn) raws)"
        using Some by (simp add: chunks_append_full [symmetric])
      with Some True Cons.IH [of "st\<lparr>current_batch := [], part := Suc (part st),
          files := write_batch pfx (part st) header ?b (files st)\<rparr>"]
      show ?thesis by (simp add: batch_step_full)
    next
      case False
      with Some Cons.IH [of "st\<lparr>current_batch := ?b\<rparr>"] show ?thesis
        by (simp add: batch_step_append)
    qed
  qed
qed

lemma run_batches_refines:
  "run_batches n tn pfx header data dir =
   write_batches pfx header 1 (chunks n (List.map_filter (transform_row tn) data)) dir"
  using batch_loop_refines [of "\<lparr>current_batch = [], part = 1, files = dir\<rparr>" n]
  by (simp add: run_batches_def)

lemma batch_filename_inj: "batch_filename pfx a = batch_filename pfx b \<longleftrightarrow> a = b"
  by (simp add: batch_filename_def str_of_nat_inj)

lemma write_batches_other:
  "(\<forall>i < length bs. f \<noteq> batch_filename pfx (k + i)) \<Longrightarrow>
   write_batches pfx header k bs dir f = dir f"
proof (induction bs arbitrary: k dir)
  case Nil
  then show ?case by simp
next
  case (Cons b bs)
  from Cons.prems have "\<forall>i < length bs. f \<noteq> batch_filename pfx (Suc k + i)"
    by (metis Suc_less_eq add_Suc_shift length_Cons)
  moreover from Cons.prems have "f \<noteq> batch_filename pfx k" by (metis add_0_right length_Cons zero_less_Suc)
  ultimately show ?case using Cons.IH by (simp add: write_batch_def)
qed

lemma write_batches_lookup:
  "i < length bs \<Longrightarrow>
   write_batches pfx header k bs dir (batch_filename pfx (k + i)) = Some (batch_content header (bs ! i))"
proof (induction bs arbitrary: k i dir)
  case Nil
  then show ?case by simp
next
  case (Cons b bs)
  show ?case
  proof (cases i)
    case 0
    have "\<forall>j < length bs. batch_filename pfx k \<noteq> batch_filename pfx (Suc k + j)"
      by (simp add: batch_filename_inj)
    with 0 show ?thesis by (simp add: write_batches_other write_batch_def)
  next
    case (Suc j)
    with Cons.prems Cons.IH [of j "Suc k"] show ?thesis by simp
  qed
qed

theorem batch_loop_inv_witness:
  "batch_inv 2 \<lparr>current_batch = [], part = 1, files = Map.empty\<rparr> \<and>
   batch_inv 2 (batch_loop 2 ''T'' ''p'' ''H'' [''(1, 'A'),'', ''(2, 'B'),'', ''(3, 'C');'']
                  \<lparr>current_batch = [], part = 1, files = Map.empty\<rparr>)"
proof -
  have h: "batch_inv 2 \<lparr>current_batch = [], part = 1, files = Map.empty\<rparr>"
    by (simp add: batch_inv_def)
  show ?thesis using h batch_loop_inv [OF h] by (rule conjI)
qed

section \<open>What \<open>process_table\<close> writes\<close>

text \<open>C1. \<open>process_table\<close> refines its abstract specification: the files it leaves are
  those of writing the chunks of 50 non-blank transformed data rows, from line
  \<open>start_line + 1\<close> to line \<open>end_line\<close>, to parts 1, 2, ... in order.\<close>

theorem process_table_writes_chunks:
  "process_table lines ts dir =
   write_batches (output_prefix ts) (insert_header (table_quoted ts) (columns ts)) 1
     (chunks 50 (List.map_filter (transform_row (table_name ts))
                   (py_slice lines (start_line ts) (end_line ts)))) dir"
  by (simp add: process_table_def run_batches_refines)

text \<open>C2. No row is lost, duplicated or reordered: part \<open>i + 1\<close> holds chunk \<open>i\<close> of the
  non-blank transformed rows, the chunks concatenate to exactly those rows, and every
  other file of the directory is left as it was.\<close>

theorem run_batches_part_files:
  "concat (chunks n (List.map_filter (transform_row tn) data)) = List.map_filter (transform_row tn) data
   \<and> (\<forall>i < length (chunks n (List.map_filter (transform_row tn) data)).
        run_batches n tn pfx header data dir (batch_filename pfx (Suc i))
        = Some (batch_content header (chunks n (List.map_filter (transform_row tn) data) ! i)))
   \<and> (\<forall>f. (\<forall>i < length (chunks n (List.map_filter (transform_row tn) data)). f \<noteq> batch_filename pfx (Suc i))
          \<longrightarrow> run_batches n tn pfx header data dir f = dir f)"
  using write_batches_lookup [of _ "chunks n (List.map_filter (transform_row tn) data)" pfx header 1 dir]
    write_batches_other [of "chunks n (List.map_filter (transform_row tn) data)" _ pfx 1 header dir]
  by (simp add: run_batches_refines concat_chunks)

theorem run_batches_part_files_witness:
  "run_batches 2 ''T'' ''p'' ''H'' [''(1, 'A'),'', ''  '', ''(2, 'B'),'', ''(3, 'C');''] Map.empty ''p_part1.sql''
     = Some (batch_content ''H'' [''(1, 'A')'', ''(2, 'B')'']) \<and>
   run_batches 2 ''T'' ''p'' ''H'' [''(1, 'A'),'', ''  '', ''(2, 'B'),'', ''(3, 'C');''] Map.empty ''p_part2.sql''
     = Some (batch_content ''H'' [''(3, 'C')'']) \<and>
   run_batches 2 ''T'' ''p'' ''H'' [''(1, 'A'),'', ''  '', ''(2, 'B'),'', ''(3, 'C');''] Map.empty ''p_part3.sql'' = None"
  using run_batches_part_files [of 2 "''T''" "[''(1, 'A'),'', ''  '', ''(2, 'B'),'', ''(3, 'C');'']" "''p''" "''H''" Map.empty]
  by (simp add: row_eval_simps py_simps chunks_not_Nil batch_filename_def less_Suc_eq numeral_2_eq_2)

text \<open>C3. For each of the \<open>\<lceil>rows / size\<rceil>\<close> parts, part \<open>i + 1\<close> holds exactly
  \<open>min size (rows - i * size)\<close> rows: the batch size for all parts but the last, and
  between one row and the batch size for the last.\<close>

theorem run_batches_batch_sizes:
  assumes "i < (length (List.map_filter (transform_row tn) data) + (max 1 n - 1)) div max 1 n"
  shows "\<exists>b. run_batches n tn pfx header data dir (batch_filename pfx (Suc i)) = Some (batch_content header b)
      \<and> length b = min (max 1 n) (length (List.map_filter (transform_row tn) data) - i * max 1 n)"
proof -
  let ?bs = "chunks n (List.map_filter (transform_row tn) data)"
  from assms have i: "i < length ?bs" by (simp add: length_chunks)
  then have "run_batches n tn pfx header data dir (batch_filename pfx (Suc i)) = Some (batch_content header (?bs ! i))"
    using write_batches_lookup [of i ?bs pfx header 1 dir] by (simp add: run_batches_refines)
  moreover have "length (?bs ! i) = min (max 1 n) (length (List.map_filter (transform_row tn) data) - i * max 1 n)"
    using i by (simp add: nth_chunks min.commute)
  ultimately show ?thesis by blast
qed

theorem run_batches_batch_sizes_witness:
  "\<exists>b. run_batches 2 ''T'' ''p'' ''H'' [''(1, 'A'),'', ''  '', ''(2, 'B'),'', ''(3, 'C');''] Map.empty ''p_part2.sql''
        = Some (batch_content ''H'' b) \<and> length b = 1"
  using run_batches_batch_sizes [of 1 "''T''" "[''(1, 'A'),'', ''  '', ''(2, 'B'),'', ''(3, 'C');'']" 2 "''p''" "''H''" Map.empty]
  by (simp add: row_eval_simps py_simps batch_filename_def le_div_geq numeral_2_eq_2)

text \<open>The files \<open>process_table\<close> leaves, file by file.\<close>

lemma process_table_lookup:
  "i < length (chunks 50 (List.map_filter (transform_row (table_name ts)) (py_slice lines (start_line ts) (end_line ts)))) \<Longrightarrow>
   process_table lines ts dir (batch_filename (output_prefix ts) (Suc i)) =
   Some (batch_content (insert_header (table_quoted ts) (columns ts))
     (chunks 50 (List.map_filter (transform_row (table_name ts)) (py_slice lines (start_line ts) (end_line ts))) ! i))"
  using write_batches_lookup [of i _ "output_prefix ts" _ 1 dir]
  by (simp add: process_table_def run_batches_refines)

lemma process_table_other:
  "(\<forall>i. f \<noteq> batch_filename (output_prefix ts) i) \<Longrightarrow> process_table lines ts dir f = dir f"
  by (simp add: process_table_def run_batches_refines write_batches_other)

text \<open>C12. The extraction contract of line 42 for a range with non-negative bounds: when
  the end line is not after the start line, \<open>process_table\<close> reads no row and writes no
  file.\<close>

theorem process_table_empty_range:
  "0 \<le> end_line ts \<Longrightarrow> end_line ts \<le> start_line ts \<Longrightarrow> process_table lines ts dir = dir"
  by (simp add: process_table_def run_batches_refines py_slice_nonneg chunks_Nil)

theorem process_table_empty_range_witness:
  "process_table [''x'', ''y''] \<lparr>start_line = 1, end_line = 1, table_name = ''Companies'',
     table_quoted = ''`Companies`'', columns = [''id''], output_prefix = ''companies_seed''\<rparr> Map.empty
   = Map.empty"
  using process_table_empty_range [of "\<lparr>start_line = 1, end_line = 1, table_name = ''Companies'',
     table_quoted = ''`Companies`'', columns = [''id''], output_prefix = ''companies_seed''\<rparr>"] by simp

text \<open>C14. A part file reads back line by line: \<open>readlines\<close> of what \<open>write_batch\<close>
  writes is the header line, then every row followed by \<open>,\<close> and a newline, the last
  by \<open>;\<close> and a newline, for a one-line header and rows without line breaks.\<close>

theorem batch_content_readback:
  assumes "nl \<notin> set h0" "cr \<notin> set h0" "rows \<noteq> []"
    and "\<forall>r \<in> set rows. nl \<notin> set r \<and> cr \<notin> set r"
  shows "py_readlines (batch_content (h0 @ [nl]) rows) =
         (h0 @ [nl]) # map (\<lambda>r. r @ [CHR '','', nl]) (butlast rows) @ [last rows @ [CHR '';'', nl]]"
proof -
  let ?mid = "concat (map (\<lambda>r. r @ [CHR '','', nl]) (butlast rows))"
  have c: "batch_content (h0 @ [nl]) rows = h0 @ nl # (?mid @ (last rows @ [CHR '';'']) @ [nl])"
    using assms(3) by (simp add: batch_content_def py_join_eq)
  have last: "nl \<notin> set (last rows)" "cr \<notin> set (last rows)"
    using assms(3,4) last_in_set by blast+
  have but: "\<forall>r \<in> set (butlast rows). nl \<notin> set r" "\<forall>r \<in> set (butlast rows). cr \<notin> set r"
    using assms(4) by (auto dest: in_set_butlastD)
  have "cr \<notin> set (batch_content (h0 @ [nl]) rows)"
    using c assms(2) last but(2) by auto
  then have "py_readlines (batch_content (h0 @ [nl]) rows) = lines_acc [] (batch_content (h0 @ [nl]) rows)"
    by (simp add: py_readlines_def univ_newlines_id)
  also have "\<dots> = (h0 @ [nl]) # lines_acc [] (?mid @ (last rows @ [CHR '';'']) @ [nl])"
    unfolding c using assms(1) by (simp add: lines_acc_line)
  also have "\<dots> = (h0 @ [nl]) # map (\<lambda>r. r @ [CHR '','', nl]) (butlast rows)
                   @ lines_acc [] ((last rows @ [CHR '';'']) @ [nl])"
    using lines_acc_terminated [of "CHR '',''" "butlast rows"] but(1) by simp
  also have "lines_acc [] ((last rows @ [CHR '';'']) @ [nl]) = [last rows @ [CHR '';'', nl]]"
    using lines_acc_line [of "last rows @ [CHR '';'']" "[]" "[]"] last(1) by simp
  finally show ?thesis by simp
qed

theorem batch_content_readback_witness:
  "py_readlines (batch_content (''H'' @ [nl]) [''(1)'', ''(2)'']) = [''H'' @ [nl], ''(1),'' @ [nl], ''(2);'' @ [nl]]"
  using batch_content_readback [of "''H''" "[''(1)'', ''(2)'']"] by simp

end
