(* ===== verification/Seed_Driver.thy ===== *)
theory Seed_Driver
  imports Batch_Writer
begin

text \<open>
  \<open>process_file\<close> of \<open>src/process_companies.py\<close> (lines 4--26): read the dump, then run
  \<open>process_table\<close> for the two fixed table configurations, \<open>Companies\<close> first and
  \<open>Questions\<close> second, in the same working directory. A missing input file is the
  uncaught \<open>FileNotFoundError\<close> of line 7, an \<open>Inl\<close> value of the model. The bytes of the
  file are taken as already decoded (\<open>encoding='utf-8', errors='ignore'\<close> is not modelled).
\<close>

datatype py_error = FileNotFoundError

definition input_file :: pystr where
  "input_file = ''u644556995_job.sql''"

definition quote_names :: "pystr list \<Rightarrow> pystr list" where
  "quote_names cs = map (\<lambda>c. [dq] @ c @ [dq]) cs"

text \<open>Lines 13--15.\<close>

definition companies_spec :: table_spec where
  "companies_spec =
     \<lparr>start_line = 769, end_line = 1713, table_name = ''Companies'',
      table_quoted = [dq] @ ''Companies'' @ [dq],
      columns = quote_names [''id'', ''name'', ''date'', ''solutions_available'', ''created_at'', ''updated_at''],
      output_prefix = ''companies_seed''\<rparr>"

text \<open>Lines 19--26.\<close>

definition questions_cols :: "pystr list" where
  "questions_cols = quote_names
     [''id'', ''company_id'', ''title'', ''google_doc_link'', ''problem_statement'',
      ''solution_cpp'', ''solution_python'', ''solution_java'',
      ''pregiven_code_cpp'', ''pregiven_code_python'', ''pregiven_code_java'',
      ''difficulty'', ''question_type'', ''premium_required'',
      ''created_at'', ''updated_at'', ''solution_code'', ''solution'',
      ''pregiven_code'', ''input_test_case'', ''output_test_case'', ''lc_tags'']"

definition questions_spec :: table_spec where
  "questions_spec =
     \<lparr>start_line = 31569, end_line = 34690, table_name = ''Questions'',
      table_quoted = [dq] @ ''Questions'' @ [dq], columns = questions_cols,
      output_prefix = ''questions_seed''\<rparr>"

text \<open>Lines 4--26.\<close>

definition process_file :: "fs \<Rightarrow> py_error + fs" where
  "process_file dir =
     (case dir input_file of
        None \<Rightarrow> Inl FileNotFoundError
      | Some content \<Rightarrow>
          (let lines = py_readlines content
           in Inr (process_table lines questions_spec (process_table lines companies_spec dir))))"

section \<open>Lemmas\<close>

lemma seed_filenames_differ:
  "batch_filename ''companies_seed'' a \<noteq> batch_filename ''questions_seed'' b"
  by (simp add: batch_filename_def)

lemma process_file_Some:
  "dir input_file = Some content \<Longrightarrow>
   process_file dir = Inr (process_table (py_readlines content) questions_spec
                            (process_table (py_readlines content) companies_spec dir))"
  by (simp add: process_file_def Let_def)

end
