(* ===== verification/Spec2Isabelle.thy ===== *)
theory Spec2Isabelle
  imports Seed_Driver
begin

text \<open>
  \<^bold>\<open>A verified model of \<open>src/process_companies.py\<close>.\<close>
  The program reads the SQL dump \<open>u644556995_job.sql\<close>, takes two fixed line ranges of it
  (the rows of the \<open>Companies\<close> and \<open>Questions\<close> inserts), rewrites every row, and writes
  the rows in batches of 50 as \<open>INSERT\<close> statements into numbered files
  \<open>companies_seed_partN.sql\<close> and \<open>questions_seed_partN.sql\<close>. It has one call chain:
  \<open>process_file\<close> (lines 4--26) calls \<open>process_table\<close> (lines 28--84) once per table, in
  that order and on the same directory; \<open>process_table\<close> rewrites each line with the
  body of its \<open>for\<close> loop and calls \<open>write_batch\<close> (lines 86--92) for each full batch and
  for the last one. The only state is the loop's \<open>current_batch\<close> and \<open>part\<close> and the
  working directory the files go to.

  \<^bold>\<open>Theories.\<close>
  \<^item> \<open>Prelude\<close>: the type \<open>fs\<close> of the working directory (a map from file names to
    contents), \<open>pystr\<close> for Python strings, the escape characters, the collection
    \<open>py_simps\<close> of evaluation facts, shared list lemmas.
  \<^item> \<open>Py_Builtins\<close>: the Python built-ins the code calls, written after CPython:
    \<open>str.strip\<close> (\<open>py_strip\<close>, \<open>py_isspace\<close>), \<open>str.replace\<close> (\<open>py_replace\<close>, with
    Python's left-to-right non-overlapping scan), \<open>str.endswith\<close>, \<open>str.join\<close>
    (\<open>py_join\<close>), slicing with negative indices and clamping (\<open>py_slice\<close>),
    \<open>str\<close> of the part number (\<open>str_of_nat\<close>; its inverse \<open>read_nat\<close> is a proof device) and
    \<open>readlines\<close> in text mode with universal newlines (\<open>py_readlines\<close>).
  \<^item> \<open>Row_Transform\<close>: the loop body of lines 52--76 as \<open>transform_row\<close>, composed of
    \<open>unescape_quotes\<close> (line 58), \<open>normalize_bools\<close> with \<open>sub_bool_fields\<close> and
    \<open>match_bool_field\<close> (the \<open>re.sub\<close> of lines 64 and 70, non-overlapping, resuming
    behind each match) and \<open>strip_terminator\<close> (lines 73--74); \<open>None\<close> is the
    \<open>continue\<close> of a blank line.
  \<^item> \<open>Batch_Writer\<close>: \<open>table_spec\<close> (the arguments of \<open>process_table\<close>), the loop state
    \<open>batch_state\<close> (\<open>current_batch\<close>, \<open>part\<close>, the directory \<open>files\<close>), one loop
    iteration \<open>batch_step\<close>, the loop \<open>batch_loop\<close>, the final flush \<open>flush_batch\<close>,
    \<open>run_batches\<close> (lines 44--84 for any batch size), \<open>process_table\<close> (size 50),
    \<open>write_batch\<close>, \<open>batch_filename\<close>, \<open>batch_content\<close>, \<open>insert_header\<close>. Its abstract
    specification is \<open>chunks\<close> (consecutive pieces of the batch size) with
    \<open>write_batches\<close> (write them to parts 1, 2, ...).
  \<^item> \<open>Seed_Driver\<close>: \<open>process_file\<close> with the two fixed \<open>table_spec\<close>s and the error
    \<open>FileNotFoundError\<close> of a missing input (\<open>py_error + fs\<close>).
  \<^item> \<open>Spec2Isabelle\<close> (this theory): the properties that span the components.

  \<^bold>\<open>What is proved.\<close>
  \<^item> Batching (\<open>Batch_Writer\<close>). The loop refines its specification
    (\<open>Batch_Writer.process_table_writes_chunks\<close>, via \<open>batch_loop_refines\<close>, an induction over
    the input lines with the loop state generalised): no row is lost, duplicated or
    reordered, every part holds 50 rows but the last, which holds 1 to 50, and there are
    \<open>\<lceil>rows / 50\<rceil>\<close> parts. The loop invariant (the open batch is never full) holds on
    every run. A line range whose end is not after its start writes nothing. A part file
    read back with \<open>readlines\<close> gives the header line and one line per row, so the
    output format round-trips.
  \<^item> Row rewrites (\<open>Row_Transform\<close>). Blank lines are exactly the skipped ones; one
    trailing \<open>,\<close> or \<open>;\<close> is removed. The quote rewrite leaves no backslash-quote behind
    when the row has no escaped backslash, and leaves backslash-free text alone. The
    boolean rewrite leaves a row without \<open>', 0, '\<close> or \<open>', 1, '\<close> unchanged and converts
    a flag between two quoted fields to \<open>false\<close> or \<open>true\<close>, copying the text around it
    (the helper \<open>match_bool_field_Some_iff\<close> characterises the matcher, obtained from its
    \<open>fun_cases\<close> rule). Rows never contain a line break.
  \<^item> Driver (this theory). The files of \<open>Companies\<close> survive the processing of
    \<open>Questions\<close>, and every part file of both tables holds its batch.
  Observations of the modelling (recorded as findings, not as theorems): the quote
  rewrite turns an escaped backslash before a quote, \<open>\\'\<close>, into \<open>\''\<close>, so the
  precondition of the quote theorem is needed; the comment of lines 67--69 describes the
  pattern as \<open>, 0, '\<close>, but a flag after an unquoted value is not converted; a negative
  end line counts from the end of the file and does not give an empty range.

  \<^bold>\<open>Bounds and loops.\<close> Every loop of the program is a \<open>for\<close> over a finite list, so
  every definition is total by structural recursion or by a length measure; no fuel is
  needed. Python integers are unbounded; \<open>part\<close> is a \<open>nat\<close> and the line numbers are
  \<open>int\<close>, as negative values reach the slice.

  \<^bold>\<open>Not modelled.\<close> UTF-8 decoding with \<open>errors='ignore'\<close> (the model starts from the
  decoded text, one \<open>char\<close> per code point below 256, so \<open>str.isspace\<close> is modelled on
  that range only); failures to open an output file for writing (the directory is a
  total map); the \<open>if __name__ == '__main__'\<close> entry point; the imported but unused
  \<open>os\<close> module.

  \<^bold>\<open>Plan.\<close> Modelled in this order: the batching loop (the core), the row rewrites,
  the built-ins they rest on, the driver. Still to state: the exact header text of both
  tables, the read-back of every part file \<open>process_file\<close> writes (combining the row
  and the file-format lemmas), and \<open>str.strip\<close> characterised as the longest infix
  without surrounding whitespace.
\<close>

text \<open>C5. The two tables do not interfere: after \<open>process_file\<close> every part file of
  \<open>Companies\<close> still holds its batch when \<open>Questions\<close> has been processed after it, and
  every part file of \<open>Questions\<close> holds its batch.\<close>

theorem process_file_writes_both:
  assumes "dir input_file = Some content" and "process_file dir = Inr out"
  shows "(\<forall>i < length (chunks 50 (List.map_filter (transform_row ''Companies'') (py_slice (py_readlines content) 769 1713))).
            out (batch_filename ''companies_seed'' (Suc i)) =
            Some (batch_content (insert_header (table_quoted companies_spec) (columns companies_spec))
              (chunks 50 (List.map_filter (transform_row ''Companies'') (py_slice (py_readlines content) 769 1713)) ! i)))
       \<and> (\<forall>i < length (chunks 50 (List.map_filter (transform_row ''Questions'') (py_slice (py_readlines content) 31569 34690))).
            out (batch_filename ''questions_seed'' (Suc i)) =
            Some (batch_content (insert_header (table_quoted questions_spec) (columns questions_spec))
              (chunks 50 (List.map_filter (transform_row ''Questions'') (py_slice (py_readlines content) 31569 34690)) ! i)))"
proof -
  let ?L = "py_readlines content"
  from assms have out: "out = process_table ?L questions_spec (process_table ?L companies_spec dir)"
    by (simp add: process_file_Some)
  have c: "\<forall>i. batch_filename ''companies_seed'' k \<noteq> batch_filename (output_prefix questions_spec) i" for k
    by (simp add: questions_spec_def seed_filenames_differ)
  show ?thesis
    using process_table_lookup [of _ companies_spec ?L dir] process_table_lookup [of _ questions_spec ?L]
      process_table_other [OF c, of ?L]
    by (simp add: out companies_spec_def questions_spec_def)
qed

text \<open>A dump of 34690 lines \<open>a\<close>: both tables' first part holds 50 rows.\<close>

theorem process_file_writes_both_witness:
  "\<exists>out. process_file [input_file \<mapsto> concat (replicate 34690 (''a'' @ [nl]))] = Inr out \<and>
     out (batch_filename ''companies_seed'' 1) =
       Some (batch_content (insert_header (table_quoted companies_spec) (columns companies_spec)) (replicate 50 ''a'')) \<and>
     out (batch_filename ''questions_seed'' 1) =
       Some (batch_content (insert_header (table_quoted questions_spec) (columns questions_spec)) (replicate 50 ''a''))"
proof -
  let ?c = "concat (replicate 34690 (''a'' @ [nl]))"
  let ?d = "[input_file \<mapsto> ?c]"
  let ?L = "py_readlines ?c"
  let ?out = "process_table ?L questions_spec (process_table ?L companies_spec ?d)"
  have L: "?L = replicate 34690 (''a'' @ [nl])" by (rule py_readlines_replicate) simp_all
  have tr: "transform_row tn [CHR ''a'', nl] = Some ''a''" for tn by (simp add: row_eval_simps py_simps Let_def)
  have C: "List.map_filter (transform_row ''Companies'') (py_slice ?L 769 1713) = replicate 944 ''a''"
    unfolding L by (simp add: py_slice_def py_slice_index_def map_filter_replicate tr)
  have Q: "List.map_filter (transform_row ''Questions'') (py_slice ?L 31569 34690) = replicate 3121 ''a''"
    unfolding L by (simp add: py_slice_def py_slice_index_def map_filter_replicate tr)
  have c0: "0 < length (chunks 50 (replicate k ''a''))" "chunks 50 (replicate k ''a'') ! 0 = replicate 50 ''a''"
    if "50 \<le> k" for k
    using that by (simp_all add: length_chunks nth_chunks)
  have h1: "?d input_file = Some ?c" by simp
  have h2: "process_file ?d = Inr ?out" using h1 by (rule process_file_Some)
  have "?out (batch_filename ''companies_seed'' 1) =
          Some (batch_content (insert_header (table_quoted companies_spec) (columns companies_spec)) (replicate 50 ''a''))
        \<and> ?out (batch_filename ''questions_seed'' 1) =
          Some (batch_content (insert_header (table_quoted questions_spec) (columns questions_spec)) (replicate 50 ''a''))"
    using process_file_writes_both [OF h1 h2] c0 [of 944] c0 [of 3121] unfolding C Q by simp
  with h2 show ?thesis by blast
qed

end
